theory Spec2Isabelle
  imports Main
begin

section \<open>JavaScript values shared by the two modules\<close>

text \<open>
  A value that a \<^verbatim>\<open>throw\<close> or a rejected promise carries. The code only ever asks of it
  \<^verbatim>\<open>error instanceof Error\<close>, \<^verbatim>\<open>error.name\<close>, \<^verbatim>\<open>error.message\<close> and \<^verbatim>\<open>String(error)\<close>:
  an \<open>Error\<close> object is its name and its message, any other value is what \<^verbatim>\<open>String\<close>
  makes of it. Strings are lists of characters, one per UTF-16 code unit.
\<close>

datatype thrown = Error string string | NonError string

text \<open>\<^verbatim>\<open>new Error(message)\<close>: the name of a plain error is \<^verbatim>\<open>"Error"\<close>.\<close>

definition new_Error :: "string \<Rightarrow> thrown" where
  "new_Error msg = Error ''Error'' msg"

text \<open>\<^verbatim>\<open>error instanceof Error ? error.message : String(error)\<close>\<close>

fun message_or_String :: "thrown \<Rightarrow> string" where
  "message_or_String (Error nm msg) = msg"
| "message_or_String (NonError s) = s"

text \<open>\<^verbatim>\<open>error instanceof Error && error.name === "AbortError"\<close>\<close>

fun is_AbortError :: "thrown \<Rightarrow> bool" where
  "is_AbortError (Error nm msg) = (nm = ''AbortError'')"
| "is_AbortError (NonError s) = False"

text \<open>\<^verbatim>\<open>String.prototype.includes\<close>: the argument occurs as a contiguous run.\<close>

fun startsWith :: "string \<Rightarrow> string \<Rightarrow> bool" where
  "startsWith s [] = True"
| "startsWith [] (c # cs) = False"
| "startsWith (x # xs) (c # cs) = (x = c \<and> startsWith xs cs)"

fun str_includes :: "string \<Rightarrow> string \<Rightarrow> bool" where
  "str_includes [] sub = (sub = [])"
| "str_includes (x # xs) sub = (startsWith (x # xs) sub \<or> str_includes xs sub)"

text \<open>A number inside a template literal: its decimal digits.\<close>

definition digit :: "nat \<Rightarrow> char" where
  "digit d = ''0123456789'' ! d"

function toString :: "nat \<Rightarrow> string" where
  "toString n = (if n < 10 then [digit n] else toString (n div 10) @ [digit (n mod 10)])"
  by pat_completeness auto
termination
  by (relation "measure id") auto

declare toString.simps [simp del]

text \<open>
  Truthiness of an optional string (\<^verbatim>\<open>undefined\<close> and \<^verbatim>\<open>""\<close> are falsy), and
  \<^verbatim>\<open>value || fallback\<close>.
\<close>

fun truthy :: "string option \<Rightarrow> bool" where
  "truthy None = False"
| "truthy (Some s) = (s \<noteq> [])"

fun or_else :: "string option \<Rightarrow> string \<Rightarrow> string" where
  "or_else None d = d"
| "or_else (Some s) d = (if s = [] then d else s)"

section \<open>The bounded request executor (\<^verbatim>\<open>request\<close> of the REST client)\<close>

definition TIMEOUT_MS :: nat where
  "TIMEOUT_MS = 30000"

text \<open>
  \<^verbatim>\<open>getConfig()\<close> belongs to the configuration module, which is not modelled; the
  configuration it returns is a parameter.
\<close>

record Config =
  apiBase :: string
  apiKey :: string

record RequestInit =
  http_method :: "string option"
  body :: "string option"
  headers :: "string \<rightharpoonup> string"

text \<open>
  What \<^verbatim>\<open>fetch\<close> resolves with (\<^verbatim>\<open>response.status\<close> is \<open>resp_status\<close>).
  \<^verbatim>\<open>response.text()\<close> and \<^verbatim>\<open>response.json()\<close> are promises of their own and may
  reject (a connection lost while the body streams, an abort, a body that is not JSON);
  \<open>'j\<close> is the type of the parsed body.
\<close>

record 'j Response =
  resp_status :: nat
  statusText :: string
  text_body :: "thrown + string"
  json_body :: "thrown + 'j"

text \<open>\<^verbatim>\<open>response.ok\<close> is, by the Fetch standard, a status from 200 to 299.\<close>

definition ok :: "'j Response \<Rightarrow> bool" where
  "ok response = (200 \<le> resp_status response \<and> resp_status response \<le> 299)"

text \<open>
  What the network does with one \<^verbatim>\<open>fetch\<close>: whether the timer of this call fired while
  the call was awaited (its callback is \<^verbatim>\<open>controller.abort()\<close>), and how the promise
  settled.
\<close>

record 'j fetch_result =
  timer_fired :: bool
  settled :: "thrown + 'j Response"

text \<open>The timers of the event loop: the identifiers still pending, and the next fresh one.\<close>

record runtime =
  pending_timers :: "nat list"
  next_timer_id :: nat

definition setTimeout :: "nat \<Rightarrow> runtime \<Rightarrow> nat \<times> runtime" where
  "setTimeout delay w =
     (next_timer_id w,
      w\<lparr>pending_timers := next_timer_id w # pending_timers w,
        next_timer_id := Suc (next_timer_id w)\<rparr>)"

definition clearTimeout :: "nat \<Rightarrow> runtime \<Rightarrow> runtime" where
  "clearTimeout timeoutId w = w\<lparr>pending_timers := removeAll timeoutId (pending_timers w)\<rparr>"

text \<open>A timer that fires runs its callback once and is pending no longer.\<close>

definition timer_fires :: "nat \<Rightarrow> runtime \<Rightarrow> runtime" where
  "timer_fires timeoutId w = w\<lparr>pending_timers := removeAll timeoutId (pending_timers w)\<rparr>"

text \<open>
  \<^verbatim>\<open>headers: { Authorization: ..., "Content-Type": "application/json", ...options.headers }\<close>:
  later keys of an object literal override earlier ones.
\<close>

definition request_headers :: "Config \<Rightarrow> RequestInit \<Rightarrow> (string \<rightharpoonup> string)" where
  "request_headers config options =
     [''Authorization'' \<mapsto> ''ApiToken '' @ apiKey config,
      ''Content-Type'' \<mapsto> ''application/json''] ++ headers options"

text \<open>The \<^verbatim>\<open>try\<close> block, from the settled \<^verbatim>\<open>fetch\<close> on.\<close>

definition request_try :: "thrown + 'j Response \<Rightarrow> thrown + 'j" where
  "request_try fetched =
     (case fetched of
        Inl error \<Rightarrow> Inl error
      | Inr response \<Rightarrow>
          if \<not> ok response then
            (case text_body response of
               Inl error \<Rightarrow> Inl error
             | Inr errorBody \<Rightarrow>
                 Inl (new_Error (''HTTP '' @ toString (resp_status response) @ '': ''
                                 @ statusText response @ '' - '' @ errorBody)))
          else json_body response)"

text \<open>
  The \<^verbatim>\<open>catch\<close> block. It receives everything the \<^verbatim>\<open>try\<close> block throws, the HTTP
  error built there included. \<^verbatim>\<open>sanitizeError\<close> belongs to the utilities module,
  which is not modelled, and is a parameter.
\<close>

definition request_catch :: "(thrown \<Rightarrow> string) \<Rightarrow> thrown \<Rightarrow> thrown" where
  "request_catch sanitizeError error =
     (if is_AbortError error
      then new_Error (''Request timeout after '' @ toString TIMEOUT_MS @ ''ms'')
      else new_Error (sanitizeError error))"

text \<open>
  \<^verbatim>\<open>request\<close>: the timer is set, \<^verbatim>\<open>fetch\<close> is awaited, \<^verbatim>\<open>try\<close>/\<^verbatim>\<open>catch\<close> produce the
  value or the error, and \<^verbatim>\<open>finally\<close> clears the timer on every path.
\<close>

definition request ::
  "Config \<Rightarrow> (thrown \<Rightarrow> string) \<Rightarrow> (string \<Rightarrow> RequestInit \<Rightarrow> 'j fetch_result) \<Rightarrow>
   string \<Rightarrow> RequestInit \<Rightarrow> runtime \<Rightarrow> (thrown + 'j) \<times> runtime" where
  "request config sanitizeError fetch endpoint options w =
     (let url = apiBase config @ ''/web/api/v2.1'' @ endpoint;
          (timeoutId, w1) = setTimeout TIMEOUT_MS w;
          net = fetch url (options\<lparr>headers := request_headers config options\<rparr>);
          w2 = (if timer_fired net then timer_fires timeoutId w1 else w1);
          outcome = (case request_try (settled net) of
                       Inr parsed \<Rightarrow> Inr parsed
                     | Inl error \<Rightarrow> Inl (request_catch sanitizeError error))
      in (outcome, clearTimeout timeoutId w2))"

section \<open>The hash lookup (\<^verbatim>\<open>handleHashLookup\<close>)\<close>

subsection \<open>Data exchanged with the Deep Visibility client\<close>

record create_args =
  query :: string
  fromDate :: string
  toDate :: string

record DVQueryResponse =
  queryId :: string
  response_status :: string

datatype DVStatus = RUNNING | FINISHED | FAILED | CANCELED

record DVQueryStatus =
  dv_queryId :: string
  dv_status :: DVStatus
  dv_progressStatus :: "nat option"
  dv_responseError :: "string option"

text \<open>
  The handler's own variable \<^verbatim>\<open>status: { status: string; responseError?: string }\<close>,
  and the assignment of a \<^verbatim>\<open>DVQueryStatus\<close> to it.
\<close>

record status_var =
  job_status :: DVStatus
  responseError :: "string option"

definition as_status_var :: "DVQueryStatus \<Rightarrow> status_var" where
  "as_status_var s = \<lparr>job_status = dv_status s, responseError = dv_responseError s\<rparr>"

record events_args =
  ev_queryId :: string
  ev_limit :: "nat option"
  ev_cursor :: "string option"

text \<open>
  An event is read as a \<^verbatim>\<open>Record<string, any>\<close>: the fields it has, each with its
  value, looked up by name.
\<close>

type_synonym DVEvent = "(string \<times> string) list"

record Pagination =
  nextCursor :: "string option"
  totalItems :: "nat option"

record 't PaginatedResponse =
  data :: "'t list"
  pagination :: "Pagination option"

text \<open>
  The tool result \<^verbatim>\<open>{ content: [{ type: "text", text }], isError? }\<close>; \<open>isError\<close> is
  \<open>None\<close> where the object literal has no such key.
\<close>

datatype content_item = TextContent string

record ToolResult =
  content :: "content_item list"
  isError :: "bool option"

record HashLookupParams =
  hash :: string

subsection \<open>The world outside the handler\<close>

text \<open>
  The three client functions are awaited one call at a time; what the \<open>n\<close>-th call of
  each (counted from 0) answers is given by the environment, as a thrown value or a
  result. \<^verbatim>\<open>formatTimeAgo\<close> and \<^verbatim>\<open>truncatePath\<close> belong to the utilities module,
  which is not modelled, and are parameters, as are the two readings of the clock.
\<close>

record environment =
  createDVQuery :: "nat \<Rightarrow> create_args \<Rightarrow> thrown + DVQueryResponse"
  getDVQueryStatus :: "nat \<Rightarrow> string \<Rightarrow> thrown + DVQueryStatus"
  getDVEvents :: "nat \<Rightarrow> events_args \<Rightarrow> thrown + DVEvent PaginatedResponse"
  formatTimeAgo :: "string \<Rightarrow> thrown + string"
  truncatePath :: "string \<Rightarrow> nat \<Rightarrow> thrown + string"
  now_toISOString :: string
  fourteen_days_ago_toISOString :: string

text \<open>The effects of one invocation, in the order they happen.\<close>

datatype effect =
  Slept nat
| Called_createDVQuery create_args
| Called_getDVQueryStatus string
| Called_getDVEvents events_args

fun is_create_call :: "effect \<Rightarrow> bool" where
  "is_create_call (Called_createDVQuery a) = True"
| "is_create_call e = False"

fun is_status_call :: "effect \<Rightarrow> bool" where
  "is_status_call (Called_getDVQueryStatus q) = True"
| "is_status_call e = False"

fun is_events_call :: "effect \<Rightarrow> bool" where
  "is_events_call (Called_getDVEvents a) = True"
| "is_events_call e = False"

definition create_calls :: "effect list \<Rightarrow> nat" where
  "create_calls log = length (filter is_create_call log)"

definition status_calls :: "effect list \<Rightarrow> nat" where
  "status_calls log = length (filter is_status_call log)"

definition events_calls :: "effect list \<Rightarrow> nat" where
  "events_calls log = length (filter is_events_call log)"

text \<open>\<^verbatim>\<open>await new Promise((resolve) => setTimeout(resolve, ms))\<close>\<close>

definition sleep :: "nat \<Rightarrow> effect list \<Rightarrow> effect list" where
  "sleep ms log = log @ [Slept ms]"

definition call_createDVQuery ::
  "environment \<Rightarrow> create_args \<Rightarrow> effect list \<Rightarrow> (thrown + DVQueryResponse) \<times> effect list" where
  "call_createDVQuery env args log =
     (createDVQuery env (create_calls log) args, log @ [Called_createDVQuery args])"

definition call_getDVQueryStatus ::
  "environment \<Rightarrow> string \<Rightarrow> effect list \<Rightarrow> (thrown + DVQueryStatus) \<times> effect list" where
  "call_getDVQueryStatus env qid log =
     (getDVQueryStatus env (status_calls log) qid, log @ [Called_getDVQueryStatus qid])"

definition call_getDVEvents ::
  "environment \<Rightarrow> events_args \<Rightarrow> effect list \<Rightarrow>
   (thrown + DVEvent PaginatedResponse) \<times> effect list" where
  "call_getDVEvents env args log =
     (getDVEvents env (events_calls log) args, log @ [Called_getDVEvents args])"

subsection \<open>The three loops\<close>

definition maxCreateRetries :: nat where
  "maxCreateRetries = 6"

definition maxAttempts :: nat where
  "maxAttempts = 30"

definition maxFetchRetries :: nat where
  "maxFetchRetries = 5"

text \<open>
  The creation loop. \<open>Inr None\<close> is the loop left by its condition with \<^verbatim>\<open>result\<close>
  still undefined; \<open>Inl\<close> is \<^verbatim>\<open>throw createError\<close>.
\<close>

function createLoop ::
  "environment \<Rightarrow> create_args \<Rightarrow> nat \<Rightarrow> effect list \<Rightarrow>
   (thrown + DVQueryResponse option) \<times> effect list" where
  "createLoop env args createAttempts log =
     (if createAttempts < maxCreateRetries then
        (case call_createDVQuery env args log of
           (Inr result, log1) \<Rightarrow> (Inr (Some result), log1)
         | (Inl createError, log1) \<Rightarrow>
             if str_includes (message_or_String createError) ''409''
                \<and> createAttempts < maxCreateRetries - 1
             then createLoop env args (createAttempts + 1) (sleep 3000 log1)
             else (Inl createError, log1))
      else (Inr None, log))"
  by pat_completeness auto
termination
  by (relation "measure (\<lambda>(env, args, createAttempts, log). maxCreateRetries - createAttempts)")
     auto

declare createLoop.simps [simp del]

text \<open>The polling loop; a call of \<^verbatim>\<open>getDVQueryStatus\<close> that throws leaves it at once.\<close>

function pollLoop ::
  "environment \<Rightarrow> string \<Rightarrow> nat \<Rightarrow> status_var \<Rightarrow> effect list \<Rightarrow>
   (thrown + status_var) \<times> effect list" where
  "pollLoop env qid attempts status log =
     (if attempts < maxAttempts then
        (case call_getDVQueryStatus env qid (sleep 1000 log) of
           (Inl error, log1) \<Rightarrow> (Inl error, log1)
         | (Inr answer, log1) \<Rightarrow>
             if job_status (as_status_var answer) \<noteq> RUNNING
             then (Inr (as_status_var answer), log1)
             else pollLoop env qid (attempts + 1) (as_status_var answer) log1)
      else (Inr status, log))"
  by pat_completeness auto
termination
  by (relation "measure (\<lambda>(env, qid, attempts, status, log). maxAttempts - attempts)") auto

declare pollLoop.simps [simp del]

text \<open>The fetch loop, of the same shape as the creation loop.\<close>

function fetchLoop ::
  "environment \<Rightarrow> events_args \<Rightarrow> nat \<Rightarrow> effect list \<Rightarrow>
   (thrown + DVEvent PaginatedResponse option) \<times> effect list" where
  "fetchLoop env args fetchAttempts log =
     (if fetchAttempts < maxFetchRetries then
        (case call_getDVEvents env args log of
           (Inr events, log1) \<Rightarrow> (Inr (Some events), log1)
         | (Inl fetchError, log1) \<Rightarrow>
             if str_includes (message_or_String fetchError) ''409''
                \<and> fetchAttempts < maxFetchRetries - 1
             then fetchLoop env args (fetchAttempts + 1) (sleep 2000 log1)
             else (Inl fetchError, log1))
      else (Inr None, log))"
  by pat_completeness auto
termination
  by (relation "measure (\<lambda>(env, args, fetchAttempts, log). maxFetchRetries - fetchAttempts)")
     auto

declare fetchLoop.simps [simp del]

subsection \<open>Rendering\<close>

definition error_result :: "string \<Rightarrow> ToolResult" where
  "error_result t = \<lparr>content = [TextContent t], isError = Some True\<rparr>"

definition text_result :: "string \<Rightarrow> ToolResult" where
  "text_result t = \<lparr>content = [TextContent t], isError = None\<rparr>"

text \<open>\<^verbatim>\<open>/^[a-fA-F0-9]+$/.test(hash)\<close>: at least one character, and all of them of the class.\<close>

definition is_hex_char :: "char \<Rightarrow> bool" where
  "is_hex_char c = (c \<in> set ''abcdefABCDEF0123456789'')"

definition test_hex :: "string \<Rightarrow> bool" where
  "test_hex s = (s \<noteq> [] \<and> list_all is_hex_char s)"

text \<open>\<^verbatim>\<open>Array.prototype.map\<close> with a callback that may throw: the first throw ends it.\<close>

fun map_throwing :: "('a \<Rightarrow> thrown + 'b) \<Rightarrow> 'a list \<Rightarrow> thrown + 'b list" where
  "map_throwing f [] = Inr []"
| "map_throwing f (x # xs) =
     (case f x of
        Inl error \<Rightarrow> Inl error
      | Inr y \<Rightarrow> (case map_throwing f xs of Inl error \<Rightarrow> Inl error | Inr ys \<Rightarrow> Inr (y # ys)))"

fun join :: "string \<Rightarrow> string list \<Rightarrow> string" where
  "join sep [] = []"
| "join sep [x] = x"
| "join sep (x # y # ys) = x @ sep @ join sep (y # ys)"

text \<open>
  \<^verbatim>\<open>summarizeHashEvent\<close>. The bullet that opens the line lies outside the 8-bit
  characters and is written as its three UTF-8 bytes; nothing measures it.
\<close>

definition summarizeHashEvent :: "environment \<Rightarrow> DVEvent \<Rightarrow> thrown + string" where
  "summarizeHashEvent env e =
     (case (case map_of e ''eventTime'' of
              None \<Rightarrow> Inr ''unknown''
            | Some t \<Rightarrow> if t = [] then Inr ''unknown'' else formatTimeAgo env t) of
        Inl error \<Rightarrow> Inl error
      | Inr time \<Rightarrow>
          (let evtype = or_else (map_of e ''eventType'') ''Unknown'';
               process = or_else (map_of e ''processName'') ''N/A'';
               agent = or_else (map_of e ''agentName'') ''Unknown'';
               user = or_else (map_of e ''processUser'') (or_else (map_of e ''user'') [])
           in case (case map_of e ''filePath'' of
                      None \<Rightarrow> Inr []
                    | Some p \<Rightarrow>
                        if p = [] then Inr []
                        else (case truncatePath env p 60 of
                                Inl error \<Rightarrow> Inl error
                              | Inr short \<Rightarrow> Inr ('' | '' @ short))) of
                Inl error \<Rightarrow> Inl error
              | Inr details1 \<Rightarrow>
                  (let details2 = details1 @
                         (case map_of e ''processCommandLine'' of
                            None \<Rightarrow> []
                          | Some c \<Rightarrow> if c = [] then [] else '' | cmd: '' @ take 80 c);
                       details = details2 @ (if user \<noteq> [] then '' | '' @ user else [])
                   in Inr ([CHR 0xE2, CHR 0x80, CHR 0xA2] @ '' '' @ agent @ '' | '' @ evtype
                           @ '' | '' @ process @ '' | '' @ time @ details))))"

text \<open>Lines 166 to 192: the result page is there.\<close>

definition render_events ::
  "environment \<Rightarrow> string \<Rightarrow> string \<Rightarrow> DVQueryResponse \<Rightarrow> DVEvent PaginatedResponse \<Rightarrow>
   thrown + ToolResult" where
  "render_events env hashField h result events =
     (if data events = [] then
        Inr (text_result (''No activity found for '' @ hashField @ '' '' @ h
                          @ '' in the last 14 days.''))
      else
        (let agents = remdups (map (\<lambda>e. or_else (map_of e ''agentName'') ''Unknown'')
                               (data events));
             header = ''Hash '' @ hashField @ '' '' @ h @ [CHR 0x0A] @ ''Seen on ''
                      @ toString (length agents) @ '' endpoint(s) | ''
                      @ toString (length (data events)) @ '' event(s) in last 14 days:''
                      @ [CHR 0x0A, CHR 0x0A]
         in case map_throwing (summarizeHashEvent env) (data events) of
              Inl error \<Rightarrow> Inl error
            | Inr summaries \<Rightarrow>
                (let summary = join [CHR 0x0A] summaries;
                     footer =
                       (case pagination events of
                          None \<Rightarrow> []
                        | Some p \<Rightarrow>
                            if truthy (nextCursor p)
                            then [CHR 0x0A, CHR 0x0A]
                                 @ ''[More results - use s1_dv_get_events with queryId: ''
                                 @ queryId result @ '', cursor: '' @ or_else (nextCursor p) []
                                 @ '']''
                            else [])
                 in Inr (text_result (header @ summary @ footer)))))"

subsection \<open>The handler\<close>

text \<open>Lines 109 to 192: what follows the polling loop.\<close>

definition after_poll ::
  "environment \<Rightarrow> string \<Rightarrow> string \<Rightarrow> DVQueryResponse \<Rightarrow> status_var \<Rightarrow> effect list \<Rightarrow>
   (thrown + ToolResult) \<times> effect list" where
  "after_poll env hashField h result status log =
     (if job_status status = FAILED then
        (Inr (error_result (''DV hash query failed: ''
                            @ or_else (responseError status) ''Unknown error'')), log)
      else if job_status status = RUNNING then
        (Inr (text_result (''Query still running after '' @ toString maxAttempts
                           @ ''s. Use s1_dv_get_events with queryId: '' @ queryId result)), log)
      else
        (case fetchLoop env \<lparr>ev_queryId = queryId result, ev_limit = Some 50, ev_cursor = None\<rparr>
                0 log of
           (Inl error, log1) \<Rightarrow> (Inl error, log1)
         | (Inr None, log1) \<Rightarrow>
             (Inr (text_result (''Query completed but events not available after retries. ''
                                @ ''Use s1_dv_get_events with queryId: '' @ queryId result)),
              log1)
         | (Inr (Some events), log1) \<Rightarrow> (render_events env hashField h result events, log1)))"

text \<open>The body of the outer \<^verbatim>\<open>try\<close> (lines 30 to 192); \<open>Inl\<close> is what it throws.\<close>

definition hashLookup_try ::
  "environment \<Rightarrow> HashLookupParams \<Rightarrow> effect list \<Rightarrow> (thrown + ToolResult) \<times> effect list" where
  "hashLookup_try env params log =
     (let hashLength = length (hash params) in
      if hashLength \<noteq> 40 \<and> hashLength \<noteq> 64 then
        (Inr (error_result (''Invalid hash format. Expected SHA1 (40 chars) or SHA256 ''
                            @ ''(64 chars), got '' @ toString hashLength @ '' chars'')), log)
      else if \<not> test_hex (hash params) then
        (Inr (error_result ''Invalid hash format. Hash must be hexadecimal characters only.''),
         log)
      else
        (let hashField = (if hashLength = 64 then ''SHA256'' else ''SHA1'');
             dvQuery = hashField @ '' = '' @ [CHR 0x22] @ hash params @ [CHR 0x22];
             toDate = now_toISOString env;
             fromDate = fourteen_days_ago_toISOString env
         in case createLoop env \<lparr>query = dvQuery, fromDate = fromDate, toDate = toDate\<rparr> 0 log of
              (Inl error, log1) \<Rightarrow> (Inl error, log1)
            | (Inr None, log1) \<Rightarrow>
                (Inr (error_result (''DV query slot busy - another query is still processing. ''
                                    @ ''Try again shortly.'')), log1)
            | (Inr (Some result), log1) \<Rightarrow>
                (case pollLoop env (queryId result) 0
                        \<lparr>job_status = RUNNING, responseError = None\<rparr> log1 of
                   (Inl error, log2) \<Rightarrow> (Inl error, log2)
                 | (Inr status, log2) \<Rightarrow>
                     after_poll env hashField (hash params) result status log2)))"

text \<open>
  \<^verbatim>\<open>handleHashLookup\<close>: the \<^verbatim>\<open>try\<close> body under the outer \<^verbatim>\<open>catch\<close>. It returns what
  the promise settles with (\<open>Inr\<close> fulfilled, \<open>Inl\<close> rejected) and the effects of the
  invocation, which starts with none.
\<close>

definition handleHashLookup ::
  "environment \<Rightarrow> HashLookupParams \<Rightarrow> (thrown + ToolResult) \<times> effect list" where
  "handleHashLookup env params =
     (case hashLookup_try env params [] of
        (Inr returned, log) \<Rightarrow> (Inr returned, log)
      | (Inl error, log) \<Rightarrow>
          (Inr (error_result (''Error hunting hash: '' @ message_or_String error)), log))"

section \<open>Vocabulary of the properties\<close>

text \<open>The slot-busy and the not-yet-queryable condition: a throw whose message has 409.\<close>

fun is_409 :: "thrown + 'a \<Rightarrow> bool" where
  "is_409 (Inl error) = str_includes (message_or_String error) ''409''"
| "is_409 (Inr r) = False"

fun answers_RUNNING :: "thrown + DVQueryStatus \<Rightarrow> bool" where
  "answers_RUNNING (Inl error) = False"
| "answers_RUNNING (Inr s) = (dv_status s = RUNNING)"

text \<open>The arguments the handler passes to \<^verbatim>\<open>createDVQuery\<close> and to \<^verbatim>\<open>getDVEvents\<close>.\<close>

definition hashField_for :: "string \<Rightarrow> string" where
  "hashField_for h = (if length h = 64 then ''SHA256'' else ''SHA1'')"

definition create_args_for :: "environment \<Rightarrow> string \<Rightarrow> create_args" where
  "create_args_for env h =
     \<lparr>query = hashField_for h @ '' = '' @ [CHR 0x22] @ h @ [CHR 0x22],
      fromDate = fourteen_days_ago_toISOString env,
      toDate = now_toISOString env\<rparr>"

definition events_args_for :: "DVQueryResponse \<Rightarrow> events_args" where
  "events_args_for result = \<lparr>ev_queryId = queryId result, ev_limit = Some 50, ev_cursor = None\<rparr>"

text \<open>A hash that passes both checks of the handler.\<close>

definition valid_hash :: "string \<Rightarrow> bool" where
  "valid_hash h = ((length h = 40 \<or> length h = 64) \<and> list_all is_hex_char h)"

text \<open>
  Creation answers slot-busy \<open>k\<close> times and then succeeds with \<open>result\<close>, within the
  six attempts.
\<close>

definition slot_busy_before :: "environment \<Rightarrow> create_args \<Rightarrow> nat \<Rightarrow> bool" where
  "slot_busy_before env args k = list_all (\<lambda>i. is_409 (createDVQuery env i args)) [0..<k]"

definition created_at :: "environment \<Rightarrow> string \<Rightarrow> nat \<Rightarrow> DVQueryResponse \<Rightarrow> bool" where
  "created_at env h k result =
     (k < maxCreateRetries \<and> slot_busy_before env (create_args_for env h) k
      \<and> createDVQuery env k (create_args_for env h) = Inr result)"

text \<open>The first \<open>n\<close> polls answer \<^verbatim>\<open>RUNNING\<close>.\<close>

definition running_before :: "environment \<Rightarrow> string \<Rightarrow> nat \<Rightarrow> bool" where
  "running_before env qid n =
     list_all (\<lambda>i. answers_RUNNING (getDVQueryStatus env i qid)) [0..<n]"

text \<open>
  The position, from 0, of the first poll within the budget that does not answer
  \<^verbatim>\<open>RUNNING\<close>: it answers a terminal status or throws.
\<close>

definition first_not_running :: "environment \<Rightarrow> string \<Rightarrow> nat option" where
  "first_not_running env qid =
     List.find (\<lambda>i. \<not> answers_RUNNING (getDVQueryStatus env i qid)) [0..<maxAttempts]"

text \<open>
  Poll \<open>n\<close> is the first that does not answer \<^verbatim>\<open>RUNNING\<close>, and it answers the
  status \<open>s\<close>.
\<close>

definition polled_at :: "environment \<Rightarrow> string \<Rightarrow> nat \<Rightarrow> DVQueryStatus \<Rightarrow> bool" where
  "polled_at env qid n s =
     (n < maxAttempts \<and> running_before env qid n \<and> getDVQueryStatus env n qid = Inr s
      \<and> dv_status s \<noteq> RUNNING)"

text \<open>
  The fetch answers not-yet-queryable \<open>m\<close> times and then succeeds with \<open>events\<close>,
  within the five attempts.
\<close>

definition not_ready_before :: "environment \<Rightarrow> events_args \<Rightarrow> nat \<Rightarrow> bool" where
  "not_ready_before env args m = list_all (\<lambda>i. is_409 (getDVEvents env i args)) [0..<m]"



text \<open>The HTTP error the \<^verbatim>\<open>try\<close> block builds from a response and its body text.\<close>

definition http_error :: "'j Response \<Rightarrow> string \<Rightarrow> thrown" where
  "http_error response errorBody =
     new_Error (''HTTP '' @ toString (resp_status response) @ '': '' @ statusText response
                @ '' - '' @ errorBody)"

text \<open>All timers pending in a runtime were handed out by it.\<close>

definition timers_wf :: "runtime \<Rightarrow> bool" where
  "timers_wf w = list_all (\<lambda>i. i < next_timer_id w) (pending_timers w)"





section \<open>Scripted networks\<close>

definition example_config :: Config where
  "example_config = \<lparr>apiBase = ''https://example.sentinelone.net'', apiKey = ''k''\<rparr>"

definition plain_options :: RequestInit where
  "plain_options = \<lparr>http_method = None, body = None, headers = Map.empty\<rparr>"

definition busy_runtime :: runtime where
  "busy_runtime = \<lparr>pending_timers = [2, 0], next_timer_id = 3\<rparr>"

text \<open>A sanitizer that strips nothing.\<close>

definition keep_message :: "thrown \<Rightarrow> string" where
  "keep_message error = message_or_String error"

text \<open>
  A response whose body is lost while it streams; in the examples the parsed body is a
  string.
\<close>

definition lost_body :: "nat \<Rightarrow> string Response" where
  "lost_body code =
     \<lparr>resp_status = code, statusText = ''Internal Server Error'',
      text_body = Inl (Error ''TypeError'' ''terminated''),
      json_body = Inl (Error ''TypeError'' ''terminated'')\<rparr>"

definition answer_with :: "string Response \<Rightarrow> string \<Rightarrow> RequestInit \<Rightarrow> string fetch_result" where
  "answer_with response url init = \<lparr>timer_fired = False, settled = Inr response\<rparr>"

text \<open>
  A status 409 with a body, a status 200 with a body, a fetch aborted by the timer and a
  fetch that cannot connect.
\<close>

definition conflict_response :: "string Response" where
  "conflict_response =
     \<lparr>resp_status = 409, statusText = ''Conflict'', text_body = Inr ''query limit reached'',
      json_body = Inl (Error ''SyntaxError'' ''Unexpected token'')\<rparr>"

definition ok_response :: "string Response" where
  "ok_response =
     \<lparr>resp_status = 200, statusText = ''OK'', text_body = Inr ''{}'', json_body = Inr ''{}''\<rparr>"

definition timed_out_fetch :: "string \<Rightarrow> RequestInit \<Rightarrow> string fetch_result" where
  "timed_out_fetch url init =
     \<lparr>timer_fired = True,
      settled = Inl (Error ''AbortError'' ''This operation was aborted'')\<rparr>"

definition refused_fetch :: "string \<Rightarrow> RequestInit \<Rightarrow> string fetch_result" where
  "refused_fetch url init =
     \<lparr>timer_fired = False, settled = Inl (Error ''TypeError'' ''fetch failed'')\<rparr>"

text \<open>
  A status 500 with a body, and a fetch that rejects with a plain error whose message
  reads like the report of that response.
\<close>

definition server_error_response :: "string Response" where
  "server_error_response =
     \<lparr>resp_status = 500, statusText = ''Internal Server Error'', text_body = Inr ''oops'',
      json_body = Inl (Error ''SyntaxError'' ''Unexpected token'')\<rparr>"

definition imitating_fetch :: "string \<Rightarrow> RequestInit \<Rightarrow> string fetch_result" where
  "imitating_fetch url init =
     \<lparr>timer_fired = False,
      settled = Inl (Error ''Error'' ''HTTP 500: Internal Server Error - oops'')\<rparr>"

section \<open>Scripted environments\<close>

text \<open>
  An environment whose three client functions answer by position only, with helpers that
  hand their argument back and a fixed clock.
\<close>

definition scripted_env ::
  "(nat \<Rightarrow> thrown + DVQueryResponse) \<Rightarrow> (nat \<Rightarrow> thrown + DVQueryStatus) \<Rightarrow>
   (nat \<Rightarrow> thrown + DVEvent PaginatedResponse) \<Rightarrow> environment" where
  "scripted_env creates polls fetches =
     \<lparr>createDVQuery = (\<lambda>n args. creates n),
      getDVQueryStatus = (\<lambda>n qid. polls n),
      getDVEvents = (\<lambda>n args. fetches n),
      formatTimeAgo = (\<lambda>t. Inr t),
      truncatePath = (\<lambda>p n. Inr (take n p)),
      now_toISOString = ''2024-03-15T12:00:00.000Z'',
      fourteen_days_ago_toISOString = ''2024-03-01T12:00:00.000Z''\<rparr>"

definition sha1_example :: HashLookupParams where
  "sha1_example = \<lparr>hash = ''da39a3ee5e6b4b0d3255bfef95601890afd80709''\<rparr>"

definition http_409 :: thrown where
  "http_409 = new_Error ''HTTP 409: Conflict - query limit reached''"

definition http_500 :: thrown where
  "http_500 = new_Error ''HTTP 500: Internal Server Error - oops''"

definition q1 :: DVQueryResponse where
  "q1 = \<lparr>queryId = ''q1'', response_status = ''RUNNING''\<rparr>"

definition q1_status :: "DVStatus \<Rightarrow> DVQueryStatus" where
  "q1_status st = \<lparr>dv_queryId = ''q1'', dv_status = st, dv_progressStatus = None,
                   dv_responseError = None\<rparr>"

definition empty_page :: "DVEvent PaginatedResponse" where
  "empty_page = \<lparr>data = [], pagination = None\<rparr>"

text \<open>Every creation attempt answers slot-busy.\<close>

definition always_busy_env :: environment where
  "always_busy_env =
     scripted_env (\<lambda>n. Inl http_409) (\<lambda>n. Inr (q1_status FINISHED)) (\<lambda>n. Inr empty_page)"

text \<open>The job finishes at the first poll; every fetch answers not-yet-queryable.\<close>

definition never_ready_env :: environment where
  "never_ready_env =
     scripted_env (\<lambda>n. Inr q1) (\<lambda>n. Inr (q1_status FINISHED)) (\<lambda>n. Inl http_409)"

text \<open>The first poll answers \<^verbatim>\<open>CANCELED\<close>.\<close>

definition canceled_env :: environment where
  "canceled_env =
     scripted_env (\<lambda>n. Inr q1) (\<lambda>n. Inr (q1_status CANCELED)) (\<lambda>n. Inr empty_page)"

text \<open>Creation succeeds at the third attempt; every poll answers \<^verbatim>\<open>RUNNING\<close>.\<close>

definition still_running_env :: environment where
  "still_running_env =
     scripted_env (\<lambda>n. if n < 2 then Inl http_409 else Inr q1) (\<lambda>n. Inr (q1_status RUNNING))
       (\<lambda>n. Inr empty_page)"

text \<open>Two polls answer \<^verbatim>\<open>RUNNING\<close>, the third \<^verbatim>\<open>FINISHED\<close>.\<close>

definition third_poll_env :: environment where
  "third_poll_env =
     scripted_env (\<lambda>n. Inr q1)
       (\<lambda>n. if n < 2 then Inr (q1_status RUNNING) else Inr (q1_status FINISHED))
       (\<lambda>n. Inr empty_page)"

text \<open>Creation answers slot-busy once and then fails with a server error.\<close>

definition server_error_env :: environment where
  "server_error_env =
     scripted_env (\<lambda>n. if n < 1 then Inl http_409 else Inl http_500)
       (\<lambda>n. Inr (q1_status FINISHED)) (\<lambda>n. Inr empty_page)"


text \<open>The second poll throws.\<close>

definition poll_throws_env :: environment where
  "poll_throws_env =
     scripted_env (\<lambda>n. Inr q1) (\<lambda>n. if n < 1 then Inr (q1_status RUNNING) else Inl http_500)
       (\<lambda>n. Inr empty_page)"

text \<open>
  The first creation attempt fails with a server error, status 500, whose body names a
  request 14092; the second succeeds.
\<close>

definition http_500_naming_14092 :: thrown where
  "http_500_naming_14092 = new_Error ''HTTP 500: Internal Server Error - request 14092 failed''"

definition misread_env :: environment where
  "misread_env =
     scripted_env (\<lambda>n. if n < 1 then Inl http_500_naming_14092 else Inr q1)
       (\<lambda>n. Inr (q1_status FINISHED)) (\<lambda>n. Inr empty_page)"

section \<open>The request executor, step by step\<close>

lemma new_Error_is_not_abort [simp]: "\<not> is_AbortError (new_Error msg)"
  by (simp add: new_Error_def)

lemma request_outcome:
  "fst (request config sanitizeError fetch endpoint options w) =
     (case request_try (settled (fetch (apiBase config @ ''/web/api/v2.1'' @ endpoint)
                                  (options\<lparr>headers := request_headers config options\<rparr>))) of
        Inr parsed \<Rightarrow> Inr parsed
      | Inl error \<Rightarrow> Inl (request_catch sanitizeError error))"
  by (simp add: request_def Let_def setTimeout_def)

lemma request_timers:
  "pending_timers (snd (request config sanitizeError fetch endpoint options w))
     = removeAll (next_timer_id w) (pending_timers w)"
  by (simp add: request_def Let_def setTimeout_def clearTimeout_def timer_fires_def)

section \<open>Counting the calls of an invocation\<close>

lemma create_calls_simps [simp]:
  "create_calls [] = 0"
  "create_calls (e # log) = (if is_create_call e then Suc (create_calls log) else create_calls log)"
  "create_calls (log @ log') = create_calls log + create_calls log'"
  by (simp_all add: create_calls_def)

lemma status_calls_simps [simp]:
  "status_calls [] = 0"
  "status_calls (e # log) = (if is_status_call e then Suc (status_calls log) else status_calls log)"
  "status_calls (log @ log') = status_calls log + status_calls log'"
  by (simp_all add: status_calls_def)

lemma events_calls_simps [simp]:
  "events_calls [] = 0"
  "events_calls (e # log) = (if is_events_call e then Suc (events_calls log) else events_calls log)"
  "events_calls (log @ log') = events_calls log + events_calls log'"
  by (simp_all add: events_calls_def)

lemma is_409_Inl: "is_409 r \<Longrightarrow> \<exists>e. r = Inl e \<and> str_includes (message_or_String e) ''409''"
  by (cases r) auto

lemma createLoop_settles:
  assumes "create_calls log = a" and "a \<le> k" and "k < maxCreateRetries"
    and "\<forall>i. a \<le> i \<and> i < k \<longrightarrow> is_409 (createDVQuery env i args)"
    and "\<not> is_409 (createDVQuery env k args) \<or> k = maxCreateRetries - 1"
  shows "\<exists>log'. createLoop env args a log =
            (case createDVQuery env k args of Inl e \<Rightarrow> Inl e | Inr r \<Rightarrow> Inr (Some r),
             log' @ [Called_createDVQuery args])
          \<and> create_calls log' = k \<and> status_calls log' = status_calls log
          \<and> events_calls log' = events_calls log"
  using assms
proof (induction "k - a" arbitrary: a log)
  case 0
  then have ak: "a = k" by simp
  show ?case
  proof (cases "createDVQuery env k args")
    case (Inl e)
    with 0 ak show ?thesis
      by (subst createLoop.simps) (auto simp: call_createDVQuery_def)
  next
    case (Inr r)
    with 0 ak show ?thesis
      by (subst createLoop.simps) (auto simp: call_createDVQuery_def)
  qed
next
  case (Suc d)
  then have lt: "a < k" by simp
  with Suc.prems obtain e where e: "createDVQuery env a args = Inl e"
      "str_includes (message_or_String e) ''409''"
    using is_409_Inl by blast
  let ?log = "sleep 3000 (log @ [Called_createDVQuery args])"
  from lt Suc.prems have budget: "a < maxCreateRetries" "a < maxCreateRetries - 1"
    by simp_all
  have step: "createLoop env args a log = createLoop env args (a + 1) ?log"
    using budget by (subst createLoop.simps) (simp add: call_createDVQuery_def Suc.prems(1) e)
  have "\<exists>log'. createLoop env args (a + 1) ?log =
            (case createDVQuery env k args of Inl e \<Rightarrow> Inl e | Inr r \<Rightarrow> Inr (Some r),
             log' @ [Called_createDVQuery args])
          \<and> create_calls log' = k \<and> status_calls log' = status_calls ?log
          \<and> events_calls log' = events_calls ?log"
  proof (rule Suc.hyps(1))
    show "d = k - (a + 1)" using Suc.hyps(2) by simp
    show "create_calls ?log = a + 1" using Suc.prems(1) by (simp add: sleep_def)
    show "a + 1 \<le> k" using lt by simp
    show "k < maxCreateRetries" by fact
    show "\<forall>i. a + 1 \<le> i \<and> i < k \<longrightarrow> is_409 (createDVQuery env i args)"
      using Suc.prems(4) by simp
    show "\<not> is_409 (createDVQuery env k args) \<or> k = maxCreateRetries - 1" by fact
  qed
  then show ?case by (simp add: step sleep_def)
qed

lemma fetchLoop_settles:
  assumes "events_calls log = a" and "a \<le> m" and "m < maxFetchRetries"
    and "\<forall>i. a \<le> i \<and> i < m \<longrightarrow> is_409 (getDVEvents env i args)"
    and "\<not> is_409 (getDVEvents env m args) \<or> m = maxFetchRetries - 1"
  shows "\<exists>log'. fetchLoop env args a log =
            (case getDVEvents env m args of Inl e \<Rightarrow> Inl e | Inr r \<Rightarrow> Inr (Some r),
             log' @ [Called_getDVEvents args])
          \<and> events_calls log' = m \<and> status_calls log' = status_calls log
          \<and> create_calls log' = create_calls log"
  using assms
proof (induction "m - a" arbitrary: a log)
  case 0
  then have am: "a = m" by simp
  show ?case
  proof (cases "getDVEvents env m args")
    case (Inl e)
    with 0 am show ?thesis
      by (subst fetchLoop.simps) (auto simp: call_getDVEvents_def)
  next
    case (Inr r)
    with 0 am show ?thesis
      by (subst fetchLoop.simps) (auto simp: call_getDVEvents_def)
  qed
next
  case (Suc d)
  then have lt: "a < m" by simp
  with Suc.prems obtain e where e: "getDVEvents env a args = Inl e"
      "str_includes (message_or_String e) ''409''"
    using is_409_Inl by blast
  let ?log = "sleep 2000 (log @ [Called_getDVEvents args])"
  from lt Suc.prems have budget: "a < maxFetchRetries" "a < maxFetchRetries - 1"
    by simp_all
  have step: "fetchLoop env args a log = fetchLoop env args (a + 1) ?log"
    using budget by (subst fetchLoop.simps) (simp add: call_getDVEvents_def Suc.prems(1) e)
  have "\<exists>log'. fetchLoop env args (a + 1) ?log =
            (case getDVEvents env m args of Inl e \<Rightarrow> Inl e | Inr r \<Rightarrow> Inr (Some r),
             log' @ [Called_getDVEvents args])
          \<and> events_calls log' = m \<and> status_calls log' = status_calls ?log
          \<and> create_calls log' = create_calls ?log"
  proof (rule Suc.hyps(1))
    show "d = m - (a + 1)" using Suc.hyps(2) by simp
    show "events_calls ?log = a + 1" using Suc.prems(1) by (simp add: sleep_def)
    show "a + 1 \<le> m" using lt by simp
    show "m < maxFetchRetries" by fact
    show "\<forall>i. a + 1 \<le> i \<and> i < m \<longrightarrow> is_409 (getDVEvents env i args)"
      using Suc.prems(4) by simp
    show "\<not> is_409 (getDVEvents env m args) \<or> m = maxFetchRetries - 1" by fact
  qed
  then show ?case by (simp add: step sleep_def)
qed

lemma answers_RUNNING_Inr:
  "answers_RUNNING r \<Longrightarrow> \<exists>s. r = Inr s \<and> job_status (as_status_var s) = RUNNING"
  by (cases r) (auto simp: as_status_var_def)

text \<open>The polling loop when poll n is the first that does not answer RUNNING.\<close>

lemma pollLoop_stops:
  assumes "status_calls log = a" and "a \<le> n" and "n < maxAttempts"
    and "\<forall>i. a \<le> i \<and> i < n \<longrightarrow> answers_RUNNING (getDVQueryStatus env i qid)"
    and "\<not> answers_RUNNING (getDVQueryStatus env n qid)"
  shows "\<exists>log'. pollLoop env qid a st log =
            (case getDVQueryStatus env n qid of Inl e \<Rightarrow> Inl e | Inr s \<Rightarrow> Inr (as_status_var s),
             log' @ [Called_getDVQueryStatus qid])
          \<and> status_calls log' = n \<and> create_calls log' = create_calls log
          \<and> events_calls log' = events_calls log"
  using assms
proof (induction "n - a" arbitrary: a log st)
  case 0
  then have an: "a = n" by simp
  show ?case
  proof (cases "getDVQueryStatus env n qid")
    case (Inl e)
    with 0 an show ?thesis
      by (subst pollLoop.simps) (auto simp: call_getDVQueryStatus_def sleep_def)
  next
    case (Inr s)
    with 0 an show ?thesis
      by (subst pollLoop.simps) (auto simp: call_getDVQueryStatus_def sleep_def as_status_var_def)
  qed
next
  case (Suc d)
  then have lt: "a < n" by simp
  with Suc.prems obtain s where s: "getDVQueryStatus env a qid = Inr s"
      "job_status (as_status_var s) = RUNNING"
    using answers_RUNNING_Inr by blast
  let ?log = "sleep 1000 log @ [Called_getDVQueryStatus qid]"
  from lt Suc.prems have budget: "a < maxAttempts" by simp
  have step: "pollLoop env qid a st log = pollLoop env qid (a + 1) (as_status_var s) ?log"
    using budget
    by (subst pollLoop.simps) (simp add: call_getDVQueryStatus_def sleep_def Suc.prems(1) s)
  have "\<exists>log'. pollLoop env qid (a + 1) (as_status_var s) ?log =
            (case getDVQueryStatus env n qid of Inl e \<Rightarrow> Inl e | Inr s \<Rightarrow> Inr (as_status_var s),
             log' @ [Called_getDVQueryStatus qid])
          \<and> status_calls log' = n \<and> create_calls log' = create_calls ?log
          \<and> events_calls log' = events_calls ?log"
  proof (rule Suc.hyps(1))
    show "d = n - (a + 1)" using Suc.hyps(2) by simp
    show "status_calls ?log = a + 1" using Suc.prems(1) by (simp add: sleep_def)
    show "a + 1 \<le> n" using lt by simp
    show "n < maxAttempts" by fact
    show "\<forall>i. a + 1 \<le> i \<and> i < n \<longrightarrow> answers_RUNNING (getDVQueryStatus env i qid)"
      using Suc.prems(4) by simp
    show "\<not> answers_RUNNING (getDVQueryStatus env n qid)" by fact
  qed
  then show ?case by (simp add: step sleep_def)
qed

text \<open>The polling loop when every poll of the budget answers RUNNING.\<close>

lemma pollLoop_exhausts:
  assumes "status_calls log = a" and "a \<le> maxAttempts"
    and "\<forall>i. a \<le> i \<and> i < maxAttempts \<longrightarrow> answers_RUNNING (getDVQueryStatus env i qid)"
    and "job_status st = RUNNING"
  shows "\<exists>st' log'. pollLoop env qid a st log = (Inr st', log')
          \<and> job_status st' = RUNNING
          \<and> status_calls log' = maxAttempts \<and> create_calls log' = create_calls log
          \<and> events_calls log' = events_calls log"
  using assms
proof (induction "maxAttempts - a" arbitrary: a log st)
  case 0
  then have "a = maxAttempts" by simp
  with 0 show ?case
    by (subst pollLoop.simps) simp
next
  case (Suc d)
  then have budget: "a < maxAttempts" by simp
  with Suc.prems obtain s where s: "getDVQueryStatus env a qid = Inr s"
      "job_status (as_status_var s) = RUNNING"
    using answers_RUNNING_Inr by blast
  let ?log = "sleep 1000 log @ [Called_getDVQueryStatus qid]"
  have step: "pollLoop env qid a st log = pollLoop env qid (a + 1) (as_status_var s) ?log"
    using budget
    by (subst pollLoop.simps) (simp add: call_getDVQueryStatus_def sleep_def Suc.prems(1) s)
  have "\<exists>st' log'. pollLoop env qid (a + 1) (as_status_var s) ?log = (Inr st', log')
          \<and> job_status st' = RUNNING
          \<and> status_calls log' = maxAttempts \<and> create_calls log' = create_calls ?log
          \<and> events_calls log' = events_calls ?log"
  proof (rule Suc.hyps(1))
    show "d = maxAttempts - (a + 1)" using Suc.hyps(2) by simp
    show "status_calls ?log = a + 1" using Suc.prems(1) by (simp add: sleep_def)
    show "a + 1 \<le> maxAttempts" using budget by simp
    show "\<forall>i. a + 1 \<le> i \<and> i < maxAttempts \<longrightarrow> answers_RUNNING (getDVQueryStatus env i qid)"
      using Suc.prems(3) by simp
    show "job_status (as_status_var s) = RUNNING" by fact
  qed
  then show ?case by (simp add: step sleep_def)
qed

section \<open>The handler, phase by phase\<close>

lemma toString_maxAttempts: "toString maxAttempts = ''30''"
  by (simp add: toString.simps maxAttempts_def digit_def)


lemma hashLookup_try_valid:
  assumes "valid_hash (hash params)"
  shows "hashLookup_try env params log =
     (case createLoop env (create_args_for env (hash params)) 0 log of
        (Inl error, log1) \<Rightarrow> (Inl error, log1)
      | (Inr None, log1) \<Rightarrow>
          (Inr (error_result (''DV query slot busy - another query is still processing. ''
                              @ ''Try again shortly.'')), log1)
      | (Inr (Some result), log1) \<Rightarrow>
          (case pollLoop env (queryId result) 0
                  \<lparr>job_status = RUNNING, responseError = None\<rparr> log1 of
             (Inl error, log2) \<Rightarrow> (Inl error, log2)
           | (Inr status, log2) \<Rightarrow>
               after_poll env (hashField_for (hash params)) (hash params) result status log2))"
proof -
  from assms have len: "(length (hash params) \<noteq> 40 \<and> length (hash params) \<noteq> 64) = False"
    and hex: "test_hex (hash params) = True"
    by (auto simp: valid_hash_def test_hex_def)
  show ?thesis
    unfolding hashLookup_try_def Let_def create_args_for_def hashField_for_def
    by (simp only: len hex if_False not_True_eq_False)
qed

lemma slot_busy_beforeD:
  "slot_busy_before env args k \<Longrightarrow> \<forall>i. 0 \<le> i \<and> i < k \<longrightarrow> is_409 (createDVQuery env i args)"
  by (simp add: slot_busy_before_def list_all_iff)

lemma running_beforeD:
  "running_before env qid n \<Longrightarrow>
   \<forall>i. 0 \<le> i \<and> i < n \<longrightarrow> answers_RUNNING (getDVQueryStatus env i qid)"
  by (simp add: running_before_def list_all_iff)

lemma not_ready_beforeD:
  "not_ready_before env args m \<Longrightarrow> \<forall>i. 0 \<le> i \<and> i < m \<longrightarrow> is_409 (getDVEvents env i args)"
  by (simp add: not_ready_before_def list_all_iff)

text \<open>What creation leaves behind when it succeeds after k slot-busy answers.\<close>

lemma created_at_createLoop:
  assumes "created_at env h k result"
  shows "\<exists>log1. createLoop env (create_args_for env h) 0 [] = (Inr (Some result), log1)
           \<and> create_calls log1 = Suc k \<and> status_calls log1 = 0 \<and> events_calls log1 = 0"
proof -
  let ?args = "create_args_for env h"
  from assms have k: "k < maxCreateRetries" and ok: "createDVQuery env k ?args = Inr result"
    by (simp_all add: created_at_def)
  from assms have busy: "\<forall>i. 0 \<le> i \<and> i < k \<longrightarrow> is_409 (createDVQuery env i ?args)"
    unfolding created_at_def using slot_busy_beforeD by blast
  have "\<not> is_409 (createDVQuery env k ?args) \<or> k = maxCreateRetries - 1"
    by (simp add: ok)
  from createLoop_settles [of "[]" 0 k env ?args] k busy this ok show ?thesis
    by auto
qed

lemma fetchLoop_keeps_other_calls:
  "fetchLoop env args a log = (r, log') \<Longrightarrow>
   status_calls log' = status_calls log \<and> create_calls log' = create_calls log"
proof (induction env args a log rule: fetchLoop.induct)
  case (1 env args fetchAttempts log)
  show ?case
  proof (cases "fetchAttempts < maxFetchRetries")
    case False
    with "1.prems" show ?thesis
      by (subst (asm) fetchLoop.simps) auto
  next
    case True
    show ?thesis
    proof (cases "getDVEvents env (events_calls log) args")
      case (Inr events)
      with True "1.prems" show ?thesis
        by (subst (asm) fetchLoop.simps) (auto simp: call_getDVEvents_def)
    next
      case (Inl fetchError)
      show ?thesis
      proof (cases "str_includes (message_or_String fetchError) ''409''
                    \<and> fetchAttempts < maxFetchRetries - 1")
        case False
        with True Inl "1.prems" show ?thesis
          by (subst (asm) fetchLoop.simps) (auto simp: call_getDVEvents_def)
      next
        case again: True
        with True Inl "1.prems"
        have loop: "fetchLoop env args (fetchAttempts + 1)
                (sleep 2000 (log @ [Called_getDVEvents args])) = (r, log')"
          by (subst (asm) fetchLoop.simps) (auto simp: call_getDVEvents_def)
        have call: "(Inl fetchError, log @ [Called_getDVEvents args])
                      = call_getDVEvents env args log"
          by (simp add: call_getDVEvents_def Inl)
        from "1.IH" [OF True call refl again loop] show ?thesis
          by (simp add: sleep_def)
      qed
    qed
  qed
qed

lemma after_poll_keeps_other_calls:
  assumes "after_poll env hashField h result status log = (r, log')"
  shows "status_calls log' = status_calls log \<and> create_calls log' = create_calls log"
proof (cases "job_status status = FAILED \<or> job_status status = RUNNING")
  case True
  with assms show ?thesis by (auto simp: after_poll_def)
next
  case False
  obtain x log1 where f: "fetchLoop env \<lparr>ev_queryId = queryId result, ev_limit = Some 50,
      ev_cursor = None\<rparr> 0 log = (x, log1)"
    by (cases "fetchLoop env \<lparr>ev_queryId = queryId result, ev_limit = Some 50,
      ev_cursor = None\<rparr> 0 log")
  with False assms have "log' = log1"
    by (auto simp: after_poll_def split: sum.splits option.splits)
  with fetchLoop_keeps_other_calls [OF f] show ?thesis by simp
qed

lemma first_not_running_Some:
  assumes "first_not_running env qid = Some n"
  shows "n < maxAttempts \<and> (\<forall>i. 0 \<le> i \<and> i < n \<longrightarrow> answers_RUNNING (getDVQueryStatus env i qid))
         \<and> \<not> answers_RUNNING (getDVQueryStatus env n qid)"
  using assms unfolding first_not_running_def find_Some_iff
  by auto

lemma first_not_running_None:
  assumes "first_not_running env qid = None"
  shows "\<forall>i. 0 \<le> i \<and> i < maxAttempts \<longrightarrow> answers_RUNNING (getDVQueryStatus env i qid)"
  using assms unfolding first_not_running_def find_None_iff
  by auto

lemma polled_at_pollLoop:
  assumes "polled_at env qid n s" and "status_calls log = 0"
  shows "\<exists>log2. pollLoop env qid 0 st log = (Inr (as_status_var s), log2)"
proof -
  from assms(1) have n: "n < maxAttempts" and s: "getDVQueryStatus env n qid = Inr s"
    and t: "dv_status s \<noteq> RUNNING"
    by (simp_all add: polled_at_def)
  from assms(1) have run: "\<forall>i. 0 \<le> i \<and> i < n \<longrightarrow> answers_RUNNING (getDVQueryStatus env i qid)"
    unfolding polled_at_def using running_beforeD by blast
  have "\<exists>log'. pollLoop env qid 0 st log =
            (case getDVQueryStatus env n qid of Inl e \<Rightarrow> Inl e | Inr s \<Rightarrow> Inr (as_status_var s),
             log' @ [Called_getDVQueryStatus qid])
          \<and> status_calls log' = n \<and> create_calls log' = create_calls log
          \<and> events_calls log' = events_calls log"
    by (rule pollLoop_stops) (simp_all add: assms(2) n s t run)
  then show ?thesis by (auto simp: s)
qed


lemma pollLoop_keeps_other_calls:
  "pollLoop env qid a st log = (r, log') \<Longrightarrow>
   events_calls log' = events_calls log \<and> create_calls log' = create_calls log"
proof (induction env qid a st log rule: pollLoop.induct)
  case (1 env qid attempts status log)
  show ?case
  proof (cases "attempts < maxAttempts")
    case False
    with "1.prems" show ?thesis
      by (subst (asm) pollLoop.simps) auto
  next
    case True
    show ?thesis
    proof (cases "getDVQueryStatus env (status_calls (sleep 1000 log)) qid")
      case (Inl error)
      with True "1.prems" show ?thesis
        by (subst (asm) pollLoop.simps) (auto simp: call_getDVQueryStatus_def sleep_def)
    next
      case (Inr answer)
      show ?thesis
      proof (cases "job_status (as_status_var answer) \<noteq> RUNNING")
        case stop: True
        with True Inr "1.prems" show ?thesis
          by (subst (asm) pollLoop.simps) (auto simp: call_getDVQueryStatus_def sleep_def)
      next
        case False
        with True Inr "1.prems"
        have loop: "pollLoop env qid (attempts + 1) (as_status_var answer)
                (sleep 1000 log @ [Called_getDVQueryStatus qid]) = (r, log')"
          by (subst (asm) pollLoop.simps) (auto simp: call_getDVQueryStatus_def)
        have call: "(Inr answer, sleep 1000 log @ [Called_getDVQueryStatus qid])
                      = call_getDVQueryStatus env qid (sleep 1000 log)"
          by (simp add: call_getDVQueryStatus_def Inr)
        from "1.IH" [OF True call refl False loop] show ?thesis
          by (simp add: sleep_def)
      qed
    qed
  qed
qed

lemma invalid_hash_rejected:
  assumes "(length (hash params) \<noteq> 40 \<and> length (hash params) \<noteq> 64)
           \<or> \<not> list_all is_hex_char (hash params)"
  shows "\<exists>t. hashLookup_try env params log = (Inr (error_result t), log)"
  using assms by (auto simp: hashLookup_try_def Let_def test_hex_def)

text \<open>Six slot-busy answers: the sixth error is thrown, caught, and reported.\<close>

lemma six_slot_busy_answers:
  assumes "valid_hash (hash params)"
    and "slot_busy_before env (create_args_for env (hash params)) maxCreateRetries"
  shows "\<exists>e. createDVQuery env 5 (create_args_for env (hash params)) = Inl e
           \<and> fst (handleHashLookup env params) =
               Inr (error_result (''Error hunting hash: '' @ message_or_String e))
           \<and> create_calls (snd (handleHashLookup env params)) = 6"
proof -
  let ?args = "create_args_for env (hash params)"
  note busy = slot_busy_beforeD [OF assms(2)]
  then have "is_409 (createDVQuery env 5 ?args)"
    by (simp add: maxCreateRetries_def)
  then obtain e where e: "createDVQuery env 5 ?args = Inl e"
    using is_409_Inl by blast
  have "\<exists>log'. createLoop env ?args 0 [] =
            (case createDVQuery env 5 ?args of Inl e \<Rightarrow> Inl e | Inr r \<Rightarrow> Inr (Some r),
             log' @ [Called_createDVQuery ?args])
          \<and> create_calls log' = 5 \<and> status_calls log' = status_calls []
          \<and> events_calls log' = events_calls []"
    by (rule createLoop_settles) (simp_all add: busy maxCreateRetries_def)
  then obtain log' where
    c: "createLoop env ?args 0 [] = (Inl e, log' @ [Called_createDVQuery ?args])"
       "create_calls log' = 5"
    by (auto simp: e)
  have "handleHashLookup env params =
          (Inr (error_result (''Error hunting hash: '' @ message_or_String e)),
           log' @ [Called_createDVQuery ?args])"
    by (simp add: handleHashLookup_def hashLookup_try_valid [OF assms(1)] c)
  with e c show ?thesis by simp
qed

text \<open>Five not-yet-queryable answers: the fifth error is thrown, caught, and reported.\<close>

lemma five_not_ready_answers:
  assumes "valid_hash (hash params)"
    and "created_at env (hash params) k result"
    and "polled_at env (queryId result) n s"
    and "dv_status s \<noteq> FAILED"
    and "not_ready_before env (events_args_for result) maxFetchRetries"
  shows "\<exists>e. getDVEvents env 4 (events_args_for result) = Inl e
           \<and> fst (handleHashLookup env params) =
               Inr (error_result (''Error hunting hash: '' @ message_or_String e))
           \<and> events_calls (snd (handleHashLookup env params)) = 5"
proof -
  let ?init = "\<lparr>job_status = RUNNING, responseError = None\<rparr>"
  let ?args = "events_args_for result"
  from created_at_createLoop [OF assms(2)] obtain log1 where
    c: "createLoop env (create_args_for env (hash params)) 0 [] = (Inr (Some result), log1)"
       "status_calls log1 = 0" "events_calls log1 = 0"
    by blast
  from polled_at_pollLoop [OF assms(3) c(2)] obtain log2 where
    p: "pollLoop env (queryId result) 0 ?init log1 = (Inr (as_status_var s), log2)"
    by blast
  from pollLoop_keeps_other_calls [OF p] c(3) have l2: "events_calls log2 = 0"
    by simp
  from assms(3,4) have st: "job_status (as_status_var s) \<noteq> FAILED"
      "job_status (as_status_var s) \<noteq> RUNNING"
    by (simp_all add: polled_at_def as_status_var_def)
  note wait = not_ready_beforeD [OF assms(5)]
  then have "is_409 (getDVEvents env 4 ?args)"
    by (simp add: maxFetchRetries_def)
  then obtain e where e: "getDVEvents env 4 ?args = Inl e"
    using is_409_Inl by blast
  have "\<exists>log'. fetchLoop env ?args 0 log2 =
            (case getDVEvents env 4 ?args of Inl e \<Rightarrow> Inl e | Inr r \<Rightarrow> Inr (Some r),
             log' @ [Called_getDVEvents ?args])
          \<and> events_calls log' = 4 \<and> status_calls log' = status_calls log2
          \<and> create_calls log' = create_calls log2"
    by (rule fetchLoop_settles) (simp_all add: l2 wait maxFetchRetries_def)
  then obtain log' where
    f: "fetchLoop env ?args 0 log2 = (Inl e, log' @ [Called_getDVEvents ?args])"
       "events_calls log' = 4"
    by (auto simp: e)
  have "handleHashLookup env params =
          (Inr (error_result (''Error hunting hash: '' @ message_or_String e)),
           log' @ [Called_getDVEvents ?args])"
    using f(1)
    by (simp add: handleHashLookup_def hashLookup_try_valid [OF assms(1)] c p after_poll_def st
          events_args_for_def)
  with e f show ?thesis by simp
qed

text \<open>What follows the polling loop does not tell CANCELED from FINISHED.\<close>

lemma canceled_is_handled_as_finished:
  "after_poll env hashField h result \<lparr>job_status = CANCELED, responseError = detail\<rparr> log
   = after_poll env hashField h result \<lparr>job_status = FINISHED, responseError = detail'\<rparr> log"
  by (simp add: after_poll_def)

text \<open>
  The creation loop entered within its budget never ends with the result undefined: the
  branch of the handler that answers "DV query slot busy" is not reached.
\<close>

lemma createLoop_defines_result:
  "createAttempts < maxCreateRetries \<Longrightarrow>
   fst (createLoop env args createAttempts log) \<noteq> Inr None"
proof (induction env args createAttempts log rule: createLoop.induct)
  case (1 env args createAttempts log)
  note budget = "1.prems"
  show ?case
  proof (cases "createDVQuery env (create_calls log) args")
    case (Inr result)
    with budget show ?thesis
      by (subst createLoop.simps) (simp add: call_createDVQuery_def)
  next
    case (Inl createError)
    show ?thesis
    proof (cases "str_includes (message_or_String createError) ''409''
                  \<and> createAttempts < maxCreateRetries - 1")
      case False
      with budget Inl show ?thesis
        by (subst createLoop.simps) (auto simp: call_createDVQuery_def)
    next
      case again: True
      have call: "(Inl createError, log @ [Called_createDVQuery args])
                    = call_createDVQuery env args log"
        by (simp add: call_createDVQuery_def Inl)
      from again have "createAttempts + 1 < maxCreateRetries" by linarith
      from "1.IH" [OF budget call refl again this] budget again Inl show ?thesis
        by (subst createLoop.simps) (simp add: call_createDVQuery_def)
    qed
  qed
qed

text \<open>Nor does the fetch loop: the "events not available" branch is not reached.\<close>

lemma fetchLoop_defines_events:
  "fetchAttempts < maxFetchRetries \<Longrightarrow>
   fst (fetchLoop env args fetchAttempts log) \<noteq> Inr None"
proof (induction env args fetchAttempts log rule: fetchLoop.induct)
  case (1 env args fetchAttempts log)
  note budget = "1.prems"
  show ?case
  proof (cases "getDVEvents env (events_calls log) args")
    case (Inr events)
    with budget show ?thesis
      by (subst fetchLoop.simps) (simp add: call_getDVEvents_def)
  next
    case (Inl fetchError)
    show ?thesis
    proof (cases "str_includes (message_or_String fetchError) ''409''
                  \<and> fetchAttempts < maxFetchRetries - 1")
      case False
      with budget Inl show ?thesis
        by (subst fetchLoop.simps) (auto simp: call_getDVEvents_def)
    next
      case again: True
      have call: "(Inl fetchError, log @ [Called_getDVEvents args])
                    = call_getDVEvents env args log"
        by (simp add: call_getDVEvents_def Inl)
      from again have "fetchAttempts + 1 < maxFetchRetries" by linarith
      from "1.IH" [OF budget call refl again this] budget again Inl show ?thesis
        by (subst fetchLoop.simps) (simp add: call_getDVEvents_def)
    qed
  qed
qed

section \<open>Claims about the hash lookup\<close>

text \<open>
  Claim C6. For a hash that passes validation and a creation that succeeds within its
  budget, if all 30 polls answer \<^verbatim>\<open>RUNNING\<close> the handler returns the "still running"
  text carrying the \<^verbatim>\<open>queryId\<close> assigned at creation, without the error flag, after
  exactly 30 calls of \<^verbatim>\<open>getDVQueryStatus\<close> and no call of \<^verbatim>\<open>getDVEvents\<close>.
\<close>

theorem poll_timeout:
  assumes "valid_hash (hash params)"
    and "created_at env (hash params) k result"
    and "running_before env (queryId result) maxAttempts"
  shows "fst (handleHashLookup env params) =
           Inr (text_result (''Query still running after 30s. Use s1_dv_get_events with queryId: ''
                             @ queryId result))
         \<and> status_calls (snd (handleHashLookup env params)) = 30
         \<and> events_calls (snd (handleHashLookup env params)) = 0"
proof -
  from created_at_createLoop [OF assms(2)] obtain log1 where
    c: "createLoop env (create_args_for env (hash params)) 0 [] = (Inr (Some result), log1)"
       "status_calls log1 = 0" "events_calls log1 = 0"
    by blast
  have "\<exists>st log2. pollLoop env (queryId result) 0 \<lparr>job_status = RUNNING, responseError = None\<rparr> log1
            = (Inr st, log2)
          \<and> job_status st = RUNNING
          \<and> status_calls log2 = maxAttempts \<and> create_calls log2 = create_calls log1
          \<and> events_calls log2 = events_calls log1"
    by (rule pollLoop_exhausts) (simp_all add: c running_beforeD [OF assms(3)])
  then obtain st log2 where
    p: "pollLoop env (queryId result) 0 \<lparr>job_status = RUNNING, responseError = None\<rparr> log1
          = (Inr st, log2)"
       "job_status st = RUNNING" "status_calls log2 = maxAttempts"
       "events_calls log2 = events_calls log1"
    by blast
  have "handleHashLookup env params =
          (Inr (text_result (''Query still running after 30s. Use s1_dv_get_events with queryId: ''
                             @ queryId result)), log2)"
    by (simp add: handleHashLookup_def hashLookup_try_valid [OF assms(1)] c p after_poll_def
          toString_maxAttempts)
  then show ?thesis
    using p c by (simp add: maxAttempts_def)
qed

theorem poll_timeout_witness:
  "valid_hash (hash sha1_example) \<and> created_at still_running_env (hash sha1_example) 2 q1
   \<and> running_before still_running_env (queryId q1) maxAttempts
   \<and> fst (handleHashLookup still_running_env sha1_example) =
       Inr (text_result ''Query still running after 30s. Use s1_dv_get_events with queryId: q1'')
   \<and> status_calls (snd (handleHashLookup still_running_env sha1_example)) = 30
   \<and> events_calls (snd (handleHashLookup still_running_env sha1_example)) = 0"
proof -
  have v: "valid_hash (hash sha1_example)" by code_simp
  have c: "created_at still_running_env (hash sha1_example) 2 q1" by code_simp
  have r: "running_before still_running_env (queryId q1) maxAttempts" by code_simp
  show ?thesis
    using v c r poll_timeout [OF v c r] by (simp add: q1_def)
qed

text \<open>
  Claim C4. For a hash that passes validation and a creation that succeeds within its
  budget, the number of calls of \<^verbatim>\<open>getDVQueryStatus\<close> in the whole invocation is the
  position, counted from 1, of the first poll that does not answer \<^verbatim>\<open>RUNNING\<close>
  (it answers a terminal status, or throws), and is the budget of 30 when every poll of
  the budget answers \<^verbatim>\<open>RUNNING\<close>: no poll follows the first terminal status.
\<close>

theorem polls_stop_at_first_answer_not_RUNNING:
  assumes "valid_hash (hash params)"
    and "created_at env (hash params) k result"
  shows "status_calls (snd (handleHashLookup env params)) =
           (case first_not_running env (queryId result) of
              Some n \<Rightarrow> Suc n
            | None \<Rightarrow> 30)"
proof -
  let ?init = "\<lparr>job_status = RUNNING, responseError = None\<rparr>"
  from created_at_createLoop [OF assms(2)] obtain log1 where
    c: "createLoop env (create_args_for env (hash params)) 0 [] = (Inr (Some result), log1)"
       "status_calls log1 = 0"
    by blast
  show ?thesis
  proof (cases "first_not_running env (queryId result)")
    case None
    have "\<exists>st log2. pollLoop env (queryId result) 0 ?init log1 = (Inr st, log2)
            \<and> job_status st = RUNNING
            \<and> status_calls log2 = maxAttempts \<and> create_calls log2 = create_calls log1
            \<and> events_calls log2 = events_calls log1"
      by (rule pollLoop_exhausts) (simp_all add: c first_not_running_None [OF None])
    then obtain st log2 where
      p: "pollLoop env (queryId result) 0 ?init log1 = (Inr st, log2)"
         "job_status st = RUNNING" "status_calls log2 = maxAttempts"
      by blast
    have "snd (handleHashLookup env params) = log2"
      by (simp add: handleHashLookup_def hashLookup_try_valid [OF assms(1)] c p after_poll_def)
    with p None show ?thesis by (simp add: maxAttempts_def)
  next
    case (Some n)
    note first = first_not_running_Some [OF Some]
    have "\<exists>log'. pollLoop env (queryId result) 0 ?init log1 =
              (case getDVQueryStatus env n (queryId result) of
                 Inl e \<Rightarrow> Inl e | Inr s \<Rightarrow> Inr (as_status_var s),
               log' @ [Called_getDVQueryStatus (queryId result)])
            \<and> status_calls log' = n \<and> create_calls log' = create_calls log1
            \<and> events_calls log' = events_calls log1"
      by (rule pollLoop_stops) (simp_all add: c first)
    then obtain x log2 where
      p: "pollLoop env (queryId result) 0 ?init log1 = (x, log2)" "status_calls log2 = Suc n"
      by auto
    have "status_calls (snd (handleHashLookup env params)) = status_calls log2"
    proof (cases x)
      case (Inl e)
      then show ?thesis
        by (simp add: handleHashLookup_def hashLookup_try_valid [OF assms(1)] c p)
    next
      case (Inr st)
      obtain r log3 where
        a: "after_poll env (hashField_for (hash params)) (hash params) result st log2 = (r, log3)"
        by (cases "after_poll env (hashField_for (hash params)) (hash params) result st log2")
      have "snd (handleHashLookup env params) = log3"
        by (cases r)
           (simp_all add: handleHashLookup_def hashLookup_try_valid [OF assms(1)] c p Inr a)
      with after_poll_keeps_other_calls [OF a] show ?thesis by simp
    qed
    with p Some show ?thesis by simp
  qed
qed

theorem polls_stop_at_first_answer_not_RUNNING_witness:
  "valid_hash (hash sha1_example) \<and> created_at third_poll_env (hash sha1_example) 0 q1
   \<and> first_not_running third_poll_env (queryId q1) = Some 2
   \<and> status_calls (snd (handleHashLookup third_poll_env sha1_example)) = 3
   \<and> created_at still_running_env (hash sha1_example) 2 q1
   \<and> first_not_running still_running_env (queryId q1) = None
   \<and> status_calls (snd (handleHashLookup still_running_env sha1_example)) = 30"
proof -
  have v: "valid_hash (hash sha1_example)" by code_simp
  have c: "created_at third_poll_env (hash sha1_example) 0 q1" by code_simp
  have f: "first_not_running third_poll_env (queryId q1) = Some 2" by code_simp
  have c': "created_at still_running_env (hash sha1_example) 2 q1" by code_simp
  have f': "first_not_running still_running_env (queryId q1) = None" by code_simp
  show ?thesis
    using v c f c' f' polls_stop_at_first_answer_not_RUNNING [OF v c]
      polls_stop_at_first_answer_not_RUNNING [OF v c']
    by simp
qed

text \<open>
  Claim C5 as stated fails. The first creation attempt fails with a server error, status
  500, not the slot-busy status 409; its body names a request 14092, so its message
  contains the text 409. The handler tests the message for that text and nothing else:
  it waits and creates again, and the invocation goes on to its polls and its fetch
  instead of ending with that error.
\<close>

theorem server_error_naming_409_is_retried:
  "createDVQuery misread_env 0 (create_args_for misread_env (hash sha1_example))
     = Inl (Error ''Error'' ''HTTP 500: Internal Server Error - request 14092 failed'')
   \<and> create_calls (snd (handleHashLookup misread_env sha1_example)) = 2
   \<and> fst (handleHashLookup misread_env sha1_example) \<noteq>
       Inr \<lparr>content = [TextContent (''Error hunting hash: ''
                  @ ''HTTP 500: Internal Server Error - request 14092 failed'')],
            isError = Some True\<rparr>
   \<and> fst (handleHashLookup misread_env sha1_example) =
       Inr \<lparr>content = [TextContent (''No activity found for SHA1 ''
                  @ ''da39a3ee5e6b4b0d3255bfef95601890afd80709 in the last 14 days.'')],
            isError = None\<rparr>"
  by code_simp

text \<open>
  Claim C5, amended. When a creation attempt, the first or one that follows slot-busy
  answers, fails with an error whose message does not contain the text 409 (the only
  test the handler has for the slot-busy condition), the handler returns that error's
  message as an error result; that attempt is the last effect of the invocation, so no
  further creation attempt, no wait, no poll and no fetch follows, whatever is left of
  the budget.
\<close>

theorem fatal_creation_error_is_not_retried:
  assumes "valid_hash (hash params)"
    and "k < maxCreateRetries"
    and "slot_busy_before env (create_args_for env (hash params)) k"
    and "createDVQuery env k (create_args_for env (hash params)) = Inl e"
    and "\<not> str_includes (message_or_String e) ''409''"
  shows "fst (handleHashLookup env params) =
           Inr (error_result (''Error hunting hash: '' @ message_or_String e))
         \<and> create_calls (snd (handleHashLookup env params)) = Suc k
         \<and> last (snd (handleHashLookup env params))
             = Called_createDVQuery (create_args_for env (hash params))
         \<and> status_calls (snd (handleHashLookup env params)) = 0
         \<and> events_calls (snd (handleHashLookup env params)) = 0"
proof -
  let ?args = "create_args_for env (hash params)"
  have "\<exists>log'. createLoop env ?args 0 [] =
            (case createDVQuery env k ?args of Inl e \<Rightarrow> Inl e | Inr r \<Rightarrow> Inr (Some r),
             log' @ [Called_createDVQuery ?args])
          \<and> create_calls log' = k \<and> status_calls log' = status_calls []
          \<and> events_calls log' = events_calls []"
    by (rule createLoop_settles) (simp_all add: assms slot_busy_beforeD [OF assms(3)])
  then obtain log' where
    c: "createLoop env ?args 0 [] = (Inl e, log' @ [Called_createDVQuery ?args])"
       "create_calls log' = k" "status_calls log' = 0" "events_calls log' = 0"
    by (auto simp: assms(4))
  have "handleHashLookup env params =
          (Inr (error_result (''Error hunting hash: '' @ message_or_String e)),
           log' @ [Called_createDVQuery ?args])"
    by (simp add: handleHashLookup_def hashLookup_try_valid [OF assms(1)] c)
  then show ?thesis
    using c by simp
qed

theorem fatal_creation_error_is_not_retried_witness:
  "valid_hash (hash sha1_example) \<and> (1::nat) < maxCreateRetries
   \<and> slot_busy_before server_error_env (create_args_for server_error_env (hash sha1_example)) 1
   \<and> createDVQuery server_error_env 1 (create_args_for server_error_env (hash sha1_example))
       = Inl http_500
   \<and> \<not> str_includes (message_or_String http_500) ''409''
   \<and> fst (handleHashLookup server_error_env sha1_example) =
       Inr (error_result ''Error hunting hash: HTTP 500: Internal Server Error - oops'')
   \<and> create_calls (snd (handleHashLookup server_error_env sha1_example)) = 2
   \<and> status_calls (snd (handleHashLookup server_error_env sha1_example)) = 0
   \<and> events_calls (snd (handleHashLookup server_error_env sha1_example)) = 0"
proof -
  have v: "valid_hash (hash sha1_example)" by code_simp
  have k: "(1::nat) < maxCreateRetries" by code_simp
  have b: "slot_busy_before server_error_env
             (create_args_for server_error_env (hash sha1_example)) 1" by code_simp
  have e: "createDVQuery server_error_env 1 (create_args_for server_error_env (hash sha1_example))
             = Inl http_500" by code_simp
  have n: "\<not> str_includes (message_or_String http_500) ''409''" by code_simp
  show ?thesis
    using v k b e n fatal_creation_error_is_not_retried [OF v k b e n]
    by (simp add: http_500_def new_Error_def)
qed



text \<open>
  Claim C10. For every environment and every input the promise of the handler fulfils,
  it never rejects; whatever the body of the outer \<^verbatim>\<open>try\<close> throws (the errors that
  leave the creation, polling and fetch loops among them) comes back as one text item
  with the error flag set; and a hash whose length is neither 40 nor 64, or that has a
  character outside the hexadecimal digits, is answered with an error result before any
  effect: no call of the client and no wait.
\<close>

theorem handler_never_rejects:
  "(\<exists>returned log. handleHashLookup env params = (Inr returned, log))
   \<and> (\<forall>error log. hashLookup_try env params [] = (Inl error, log) \<longrightarrow>
         handleHashLookup env params =
           (Inr \<lparr>content = [TextContent (''Error hunting hash: '' @ message_or_String error)],
                 isError = Some True\<rparr>, log))
   \<and> ((length (hash params) \<noteq> 40 \<and> length (hash params) \<noteq> 64)
        \<or> \<not> list_all is_hex_char (hash params) \<longrightarrow>
       (\<exists>t. handleHashLookup env params
               = (Inr \<lparr>content = [TextContent t], isError = Some True\<rparr>, [])))"
proof (intro conjI allI impI)
  show "\<exists>returned log. handleHashLookup env params = (Inr returned, log)"
    by (cases "hashLookup_try env params []")
       (auto simp: handleHashLookup_def split: sum.splits)
next
  fix error log
  assume "hashLookup_try env params [] = (Inl error, log)"
  then show "handleHashLookup env params =
      (Inr \<lparr>content = [TextContent (''Error hunting hash: '' @ message_or_String error)],
            isError = Some True\<rparr>, log)"
    by (simp add: handleHashLookup_def error_result_def)
next
  assume "(length (hash params) \<noteq> 40 \<and> length (hash params) \<noteq> 64)
          \<or> \<not> list_all is_hex_char (hash params)"
  from invalid_hash_rejected [OF this, of env "[]"]
  show "\<exists>t. handleHashLookup env params
               = (Inr \<lparr>content = [TextContent t], isError = Some True\<rparr>, [])"
    by (auto simp: handleHashLookup_def error_result_def)
qed

theorem handler_never_rejects_witness:
  "(\<exists>returned log. handleHashLookup poll_throws_env sha1_example = (Inr returned, log))
   \<and> hashLookup_try poll_throws_env sha1_example []
       = (Inl http_500, snd (hashLookup_try poll_throws_env sha1_example []))
   \<and> handleHashLookup poll_throws_env sha1_example =
       (Inr \<lparr>content = [TextContent ''Error hunting hash: HTTP 500: Internal Server Error - oops''],
             isError = Some True\<rparr>, snd (hashLookup_try poll_throws_env sha1_example []))
   \<and> length (hash \<lparr>hash = ''da39a3ee''\<rparr>) \<noteq> 40 \<and> length (hash \<lparr>hash = ''da39a3ee''\<rparr>) \<noteq> 64
   \<and> (\<exists>t. handleHashLookup poll_throws_env \<lparr>hash = ''da39a3ee''\<rparr>
             = (Inr \<lparr>content = [TextContent t], isError = Some True\<rparr>, []))"
proof -
  have "fst (hashLookup_try poll_throws_env sha1_example []) = Inl http_500"
    by code_simp
  then have t: "hashLookup_try poll_throws_env sha1_example []
       = (Inl http_500, snd (hashLookup_try poll_throws_env sha1_example []))"
    by (metis prod.collapse)
  have l: "(length (hash \<lparr>hash = ''da39a3ee''\<rparr>) \<noteq> 40 \<and> length (hash \<lparr>hash = ''da39a3ee''\<rparr>) \<noteq> 64)
           \<or> \<not> list_all is_hex_char (hash \<lparr>hash = ''da39a3ee''\<rparr>)"
    by simp
  note w1 = handler_never_rejects [of poll_throws_env sha1_example]
  note w2 = handler_never_rejects [of poll_throws_env "\<lparr>hash = ''da39a3ee''\<rparr>"]
  from w1 have a: "\<exists>returned log. handleHashLookup poll_throws_env sha1_example = (Inr returned, log)"
    by blast
  from w1 t have b: "handleHashLookup poll_throws_env sha1_example =
       (Inr \<lparr>content = [TextContent (''Error hunting hash: '' @ message_or_String http_500)],
             isError = Some True\<rparr>, snd (hashLookup_try poll_throws_env sha1_example []))"
    by blast
  from w2 l have c: "\<exists>t. handleHashLookup poll_throws_env \<lparr>hash = ''da39a3ee''\<rparr>
             = (Inr \<lparr>content = [TextContent t], isError = Some True\<rparr>, [])"
    by blast
  from a b c t show ?thesis
    by (simp add: http_500_def new_Error_def)
qed

text \<open>
  Claim C1, where the code departs from it. Every one of the six creation attempts answers
  slot-busy. The sixth error is thrown out of the loop and caught by the outer
  \<^verbatim>\<open>catch\<close>: the handler returns "Error hunting hash:" followed by the message of that
  error, not the "DV query slot busy" text. The branch with that text needs the loop to
  end with the result undefined, which it never does (\<open>createLoop_defines_result\<close>).
\<close>

theorem slot_busy_exhaustion_is_reported_as_error:
  "slot_busy_before always_busy_env (create_args_for always_busy_env (hash sha1_example))
     maxCreateRetries
   \<and> fst (handleHashLookup always_busy_env sha1_example) =
       Inr \<lparr>content = [TextContent ''Error hunting hash: HTTP 409: Conflict - query limit reached''],
            isError = Some True\<rparr>
   \<and> fst (handleHashLookup always_busy_env sha1_example) \<noteq>
       Inr \<lparr>content = [TextContent (''DV query slot busy - another query is still processing. ''
                                     @ ''Try again shortly.'')],
            isError = Some True\<rparr>
   \<and> create_calls (snd (handleHashLookup always_busy_env sha1_example)) = 6"
  by code_simp

text \<open>
  Claim C2, where the code departs from it. The job is finished and every one of the five
  fetch attempts answers not-yet-queryable. The fifth error is thrown out of the loop and
  caught by the outer \<^verbatim>\<open>catch\<close>: the handler returns "Error hunting hash:" followed by
  the message of that error, with the error flag set and without the \<^verbatim>\<open>queryId\<close>, not
  the "Query completed but events not available" text. The branch with that text needs
  the loop to end with the events undefined, which it never does
  (\<open>fetchLoop_defines_events\<close>).
\<close>

theorem fetch_exhaustion_is_reported_as_error:
  "created_at never_ready_env (hash sha1_example) 0 q1
   \<and> polled_at never_ready_env (queryId q1) 0 (q1_status FINISHED)
   \<and> not_ready_before never_ready_env (events_args_for q1) maxFetchRetries
   \<and> fst (handleHashLookup never_ready_env sha1_example) =
       Inr \<lparr>content = [TextContent ''Error hunting hash: HTTP 409: Conflict - query limit reached''],
            isError = Some True\<rparr>
   \<and> fst (handleHashLookup never_ready_env sha1_example) \<noteq>
       Inr \<lparr>content = [TextContent (''Query completed but events not available after retries. ''
                                     @ ''Use s1_dv_get_events with queryId: q1'')],
            isError = None\<rparr>
   \<and> events_calls (snd (handleHashLookup never_ready_env sha1_example)) = 5"
  by code_simp

text \<open>
  Claim C3, where the code departs from it. The first poll answers \<^verbatim>\<open>CANCELED\<close>. The
  handler tests the status for \<^verbatim>\<open>FAILED\<close> and for \<^verbatim>\<open>RUNNING\<close> only, so it goes on to
  the fetch: \<^verbatim>\<open>getDVEvents\<close> is called, and with an empty page the handler reports
  "No activity found".
\<close>

theorem canceled_job_enters_the_fetch:
  "created_at canceled_env (hash sha1_example) 0 q1
   \<and> polled_at canceled_env (queryId q1) 0 (q1_status CANCELED)
   \<and> status_calls (snd (handleHashLookup canceled_env sha1_example)) = 1
   \<and> events_calls (snd (handleHashLookup canceled_env sha1_example)) = 1
   \<and> last (snd (handleHashLookup canceled_env sha1_example)) = Called_getDVEvents (events_args_for q1)
   \<and> fst (handleHashLookup canceled_env sha1_example) =
       Inr \<lparr>content = [TextContent (''No activity found for SHA1 ''
                  @ ''da39a3ee5e6b4b0d3255bfef95601890afd80709 in the last 14 days.'')],
            isError = None\<rparr>"
  by code_simp

section \<open>Claims about the request executor\<close>

text \<open>
  Claim C9. Whatever \<^verbatim>\<open>fetch\<close> does (it resolves with any status, rejects, is aborted
  by the timer, the body is read or not), the timer that the call of \<^verbatim>\<open>request\<close> set is
  not pending when the call returns; and when the pending timers were all handed out by
  the runtime, they are after the call exactly what they were before it.
\<close>

theorem request_clears_its_timer:
  "next_timer_id w \<notin> set (pending_timers (snd (request config sanitizeError fetch endpoint options w)))
   \<and> (timers_wf w \<longrightarrow>
        pending_timers (snd (request config sanitizeError fetch endpoint options w))
          = pending_timers w)"
proof -
  have "timers_wf w \<Longrightarrow> removeAll (next_timer_id w) (pending_timers w) = pending_timers w"
    by (auto simp: timers_wf_def list_all_iff)
  then show ?thesis by (auto simp: request_timers)
qed

theorem request_clears_its_timer_witness:
  "timers_wf busy_runtime
   \<and> pending_timers (snd (request example_config keep_message timed_out_fetch ''/threats''
                             plain_options busy_runtime)) = [2, 0]
   \<and> pending_timers (snd (request example_config keep_message (answer_with conflict_response)
                             ''/threats'' plain_options busy_runtime)) = [2, 0]
   \<and> pending_timers (snd (request example_config keep_message (answer_with ok_response)
                             ''/threats'' plain_options busy_runtime)) = [2, 0]
   \<and> pending_timers (snd (request example_config keep_message refused_fetch ''/threats''
                             plain_options busy_runtime)) = [2, 0]"
proof -
  have wf: "timers_wf busy_runtime"
    by (simp add: timers_wf_def busy_runtime_def)
  show ?thesis
    using wf
      request_clears_its_timer [of busy_runtime example_config keep_message timed_out_fetch
        "''/threats''" plain_options]
      request_clears_its_timer [of busy_runtime example_config keep_message
        "answer_with conflict_response" "''/threats''" plain_options]
      request_clears_its_timer [of busy_runtime example_config keep_message
        "answer_with ok_response" "''/threats''" plain_options]
      request_clears_its_timer [of busy_runtime example_config keep_message refused_fetch
        "''/threats''" plain_options]
    by (simp add: busy_runtime_def)
qed


text \<open>
  Neither depends on the sanitizer: under every one, a response whose body is lost hides
  its status from the caller, and the imitation and the response settle alike.
\<close>

lemma lost_body_hides_status:
  "fst (request config sanitizeError (answer_with (lost_body 500)) endpoint options w)
   = fst (request config sanitizeError (answer_with (lost_body 404)) endpoint options w)"
  by (simp add: request_outcome answer_with_def lost_body_def request_try_def ok_def)

lemma imitated_http_error_collides:
  "fst (request config sanitizeError imitating_fetch endpoint options w)
   = fst (request config sanitizeError (answer_with server_error_response) endpoint options w)"
  by (simp add: request_outcome answer_with_def request_try_def ok_def
        request_catch_def new_Error_def imitating_fetch_def server_error_response_def
        toString.simps digit_def)



end
